theory Spec2Isabelle
  imports Complex_Main "HOL-Library.Stream" "HOL-Library.Sublist"
begin

section \<open>Errors, float arithmetic and the random source\<close>

text \<open>
  The exceptions that the simulation core of \<^verbatim>\<open>virSim.py\<close> can raise.
  \<open>NoChildException\<close> is the source's own class; the others are raised by the Python
  run time: \<open>KeyError\<close> by a dictionary lookup, \<open>OverflowError\<close> by \<^verbatim>\<open>float(self.maxPop)\<close>,
  \<open>ZeroDivisionError\<close> by the float division of the population density, \<open>ValueError\<close>
  by \<^verbatim>\<open>list.remove\<close>.
\<close>

datatype error =
  NoChildException | KeyError string | ZeroDivisionError | OverflowError | ValueError

text \<open>
  The probabilities, the density and the draws are Python floats, and the code computes
  with them in float arithmetic, which rounds. The type \<open>'f\<close> of the floats and the
  operations the code uses are parameters of the model: \<open>fsub\<close> is the float \<^verbatim>\<open>-\<close>,
  \<open>fmul\<close> the float \<^verbatim>\<open>*\<close>, \<open>fdiv\<close> the float \<^verbatim>\<open>/\<close> (which raises on a zero divisor),
  \<open>fle\<close> the float \<^verbatim>\<open><=\<close>, \<open>fone\<close> the float that the literal \<^verbatim>\<open>1\<close> is converted to,
  \<open>float_of_int\<close> the conversion \<^verbatim>\<open>float(n)\<close> of an integer (which raises when the
  integer is too large) and \<open>float_of_len\<close> the conversion of the length of a list, which
  always succeeds. Nothing is assumed about them: every theorem below holds for every
  such arithmetic, the one of Python included.
\<close>

record 'f arith =
  fsub :: "'f \<Rightarrow> 'f \<Rightarrow> 'f"
  fmul :: "'f \<Rightarrow> 'f \<Rightarrow> 'f"
  fdiv :: "'f \<Rightarrow> 'f \<Rightarrow> error + 'f"
  fle :: "'f \<Rightarrow> 'f \<Rightarrow> bool"
  fone :: 'f
  float_of_int :: "int \<Rightarrow> error + 'f"
  float_of_len :: "nat \<Rightarrow> 'f"

text \<open>
  \<^verbatim>\<open>random.random()\<close> reads a process-wide generator. The generator is modelled by the
  stream of the values it is going to return: a call takes the head and leaves the tail.
\<close>

type_synonym 'f rng = "'f stream"

definition random_random :: "'f rng \<Rightarrow> 'f \<times> 'f rng" where
  "random_random s = (shd s, stl s)"


section \<open>Virus entities\<close>

record 'f SimpleVirus =
  maxBirthProb :: 'f
  clearProb :: 'f

record 'f ResistantVirus = "'f SimpleVirus" +
  resistances :: "string \<rightharpoonup> bool"
  mutProb :: 'f

text \<open>
  The constructors store their arguments. They have no raising branch in the source; the
  result type says so by always being \<open>Inr\<close>.
\<close>

definition SimpleVirus_init :: "'f \<Rightarrow> 'f \<Rightarrow> error + 'f SimpleVirus" where
  "SimpleVirus_init maxBirthProb' clearProb' =
     Inr \<lparr>maxBirthProb = maxBirthProb', clearProb = clearProb'\<rparr>"

definition ResistantVirus_init ::
  "'f \<Rightarrow> 'f \<Rightarrow> (string \<rightharpoonup> bool) \<Rightarrow> 'f \<Rightarrow> error + 'f ResistantVirus" where
  "ResistantVirus_init maxBirthProb' clearProb' resistances' mutProb' =
     Inr \<lparr>maxBirthProb = maxBirthProb', clearProb = clearProb',
          resistances = resistances', mutProb = mutProb'\<rparr>"

text \<open>\<^verbatim>\<open>SimpleVirus.doesClear\<close>, inherited by \<^verbatim>\<open>ResistantVirus\<close>.\<close>

definition doesClear ::
  "'f arith \<Rightarrow> ('f, 'a) SimpleVirus_scheme \<Rightarrow> 'f rng \<Rightarrow> bool \<times> 'f rng" where
  "doesClear ar self s =
     (let (random_float, s') = random_random s
      in (if fle ar random_float (clearProb self) then True else False, s'))"

text \<open>\<^verbatim>\<open>SimpleVirus.reproduce\<close>.\<close>

definition SimpleVirus_reproduce ::
  "'f arith \<Rightarrow> 'f SimpleVirus \<Rightarrow> 'f \<Rightarrow> 'f rng \<Rightarrow> (error + 'f SimpleVirus) \<times> 'f rng" where
  "SimpleVirus_reproduce ar self popDensity s =
     (let probability = fmul ar (maxBirthProb self) (fsub ar (fone ar) popDensity);
          (random_float, s') = random_random s
      in if fle ar random_float probability
         then (SimpleVirus_init (maxBirthProb self) (clearProb self), s')
         else (Inl NoChildException, s'))"

text \<open>\<^verbatim>\<open>ResistantVirus.getResistance\<close>: the dictionary lookup raises on a missing key.\<close>

definition getResistance :: "'f ResistantVirus \<Rightarrow> string \<Rightarrow> error + bool" where
  "getResistance self drug =
     (case resistances self drug of
        None \<Rightarrow> Inl (KeyError drug)
      | Some b \<Rightarrow> Inr (if b then True else False))"

text \<open>
  The first loop of \<^verbatim>\<open>ResistantVirus.reproduce\<close>: the flag \<open>resistance\<close> starts as
  \<open>True\<close> and is cleared by every drug the virus is not resistant to.
\<close>

fun drug_loop :: "'f ResistantVirus \<Rightarrow> string list \<Rightarrow> bool \<Rightarrow> error + bool" where
  "drug_loop self [] resistance = Inr resistance"
| "drug_loop self (drug # rest) resistance =
     (case getResistance self drug of
        Inl e \<Rightarrow> Inl e
      | Inr r \<Rightarrow> drug_loop self rest (if \<not> r then False else resistance))"

text \<open>
  The dictionary \<open>offres\<close> built when the single mutation draw succeeds: every key of the
  parent's dictionary, with the negated flag.
\<close>

definition offres :: "'f ResistantVirus \<Rightarrow> (string \<rightharpoonup> bool)" where
  "offres self = (\<lambda>resistance.
     case resistances self resistance of
       None \<Rightarrow> None
     | Some b \<Rightarrow> Some (if b then False else True))"

text \<open>\<^verbatim>\<open>ResistantVirus.reproduce\<close>.\<close>

definition ResistantVirus_reproduce ::
  "'f arith \<Rightarrow> 'f ResistantVirus \<Rightarrow> 'f \<Rightarrow> string list \<Rightarrow> 'f rng
     \<Rightarrow> (error + 'f ResistantVirus) \<times> 'f rng" where
  "ResistantVirus_reproduce ar self popDensity activeDrugs s =
     (case drug_loop self activeDrugs True of
        Inl e \<Rightarrow> (Inl e, s)
      | Inr resistance \<Rightarrow>
          if resistance \<or> length activeDrugs = 0 then
            (let probability = fmul ar (maxBirthProb self) (fsub ar (fone ar) popDensity);
                 (randomFloat, s1) = random_random s
             in if fle ar randomFloat probability then
                  (let (randomRes, s2) = random_random s1
                   in if fle ar randomRes (mutProb self)
                      then (ResistantVirus_init (maxBirthProb self) (clearProb self)
                              (offres self) (mutProb self), s2)
                      else (ResistantVirus_init (maxBirthProb self) (clearProb self)
                              (resistances self) (mutProb self), s2))
                else (Inl NoChildException, s1))
          else (Inl NoChildException, s))"


section \<open>The object store\<close>

text \<open>
  A Python list holds references, and \<^verbatim>\<open>list.remove\<close> compares virus objects by
  identity (the classes define no \<^verbatim>\<open>__eq__\<close>). Lists are mutable and shared: the
  constructor of a patient keeps the list it is given. So virus objects and list objects
  live in a store, and a list holds the addresses of its elements. \<open>nxt\<close> is the next
  unused address; every allocation takes it and moves it on.
\<close>

type_synonym ref = nat

record 'v heap =
  objs :: "ref \<Rightarrow> 'v"
  lsts :: "ref \<Rightarrow> ref list"
  nxt :: ref

definition new_obj :: "'v \<Rightarrow> 'v heap \<Rightarrow> ref \<times> 'v heap" where
  "new_obj v h = (nxt h, h\<lparr>objs := (objs h)(nxt h := v), nxt := Suc (nxt h)\<rparr>)"

definition new_list :: "ref list \<Rightarrow> 'v heap \<Rightarrow> ref \<times> 'v heap" where
  "new_list xs h = (nxt h, h\<lparr>lsts := (lsts h)(nxt h := xs), nxt := Suc (nxt h)\<rparr>)"

text \<open>\<^verbatim>\<open>l.append(x)\<close> on the list object at address \<open>a\<close>.\<close>

definition list_append :: "ref \<Rightarrow> ref \<Rightarrow> 'v heap \<Rightarrow> 'v heap" where
  "list_append a x h = h\<lparr>lsts := (lsts h)(a := lsts h a @ [x])\<rparr>"

text \<open>
  \<^verbatim>\<open>l.remove(x)\<close> on a local list: the first occurrence goes, and a missing element
  raises \<open>ValueError\<close>.
\<close>

definition list_remove :: "ref \<Rightarrow> ref list \<Rightarrow> error + ref list" where
  "list_remove x l = (if x \<in> set l then Inr (remove1 x l) else Inl ValueError)"


section \<open>Patients\<close>

record SimplePatient =
  viruses :: ref
  maxPop :: int

record Patient = SimplePatient +
  drugs :: "string list"

text \<open>
  The constructors keep the reference to the caller's list: no copy is made. They have
  no raising branch.
\<close>

definition SimplePatient_init :: "ref \<Rightarrow> int \<Rightarrow> error + SimplePatient" where
  "SimplePatient_init viruses' maxPop' = Inr \<lparr>viruses = viruses', maxPop = maxPop'\<rparr>"

definition Patient_init :: "ref \<Rightarrow> int \<Rightarrow> error + Patient" where
  "Patient_init viruses' maxPop' =
     Inr \<lparr>viruses = viruses', maxPop = maxPop', drugs = []\<rparr>"

definition getTotalPop :: "'a SimplePatient_scheme \<Rightarrow> 'v heap \<Rightarrow> nat" where
  "getTotalPop self h = length (lsts h (viruses self))"

text \<open>
  \<^verbatim>\<open>Patient.addPrescription\<close> returns the list of drugs and updates the patient. The
  \<^verbatim>\<open>print\<close> statement is left out.
\<close>

definition addPrescription :: "Patient \<Rightarrow> string \<Rightarrow> string list \<times> Patient" where
  "addPrescription self newDrug =
     (let self' = (if newDrug \<notin> set (drugs self)
                   then self\<lparr>drugs := drugs self @ [newDrug]\<rparr> else self)
      in (drugs self', self'))"

definition getPrescriptions :: "Patient \<Rightarrow> string list" where
  "getPrescriptions self = drugs self"

text \<open>
  \<^verbatim>\<open>Patient.getResistPop\<close>. The inner loop sets the flag at every drug, so the flag it
  leaves is the one of the last drug; the outer loop collects the viruses whose flag is set.
\<close>

fun resist_flag :: "'f ResistantVirus \<Rightarrow> string list \<Rightarrow> bool \<Rightarrow> error + bool" where
  "resist_flag virus [] resistance = Inr resistance"
| "resist_flag virus (drug # rest) resistance =
     (case getResistance virus drug of
        Inl e \<Rightarrow> Inl e
      | Inr r \<Rightarrow> resist_flag virus rest (if r then True else False))"

fun resist_loop ::
  "'f ResistantVirus heap \<Rightarrow> ref list \<Rightarrow> string list \<Rightarrow> ref list \<Rightarrow> error + ref list" where
  "resist_loop h [] drugResist resistPop = Inr resistPop"
| "resist_loop h (virus # rest) drugResist resistPop =
     (case resist_flag (objs h virus) drugResist False of
        Inl e \<Rightarrow> Inl e
      | Inr resistance \<Rightarrow>
          resist_loop h rest drugResist
            (if resistance then resistPop @ [virus] else resistPop))"

definition getResistPop ::
  "Patient \<Rightarrow> 'f ResistantVirus heap \<Rightarrow> string list \<Rightarrow> error + nat" where
  "getResistPop self h drugResist =
     (case resist_loop h (lsts h (viruses self)) drugResist [] of
        Inl e \<Rightarrow> Inl e
      | Inr resistPop \<Rightarrow> Inr (length resistPop))"

text \<open>
  The first loop of \<^verbatim>\<open>update\<close>: it walks the patient's list and removes every cleared
  virus from the local copy \<open>virus_pop\<close>.
\<close>

fun clear_loop ::
  "'f arith \<Rightarrow> (('f, 'a) SimpleVirus_scheme) heap \<Rightarrow> ref list \<Rightarrow> ref list \<Rightarrow> 'f rng
     \<Rightarrow> (error + ref list) \<times> 'f rng" where
  "clear_loop ar h [] virus_pop s = (Inr virus_pop, s)"
| "clear_loop ar h (virus # rest) virus_pop s =
     (let (cleared, s') = doesClear ar (objs h virus) s
      in if cleared then
           (case list_remove virus virus_pop of
              Inl e \<Rightarrow> (Inl e, s')
            | Inr virus_pop' \<Rightarrow> clear_loop ar h rest virus_pop' s')
         else clear_loop ar h rest virus_pop s')"

text \<open>
  The density \<^verbatim>\<open>len(virus_pop)/float(self.maxPop)\<close>: the conversion of the capacity
  raises \<open>OverflowError\<close> on an integer beyond the floats, and the division raises
  \<open>ZeroDivisionError\<close> on the capacity 0; both are what the arithmetic says they are.
\<close>

definition density :: "'f arith \<Rightarrow> nat \<Rightarrow> int \<Rightarrow> error + 'f" where
  "density ar len maxPop' =
     (case float_of_int ar maxPop' of
        Inl e \<Rightarrow> Inl e
      | Inr capacity \<Rightarrow> fdiv ar (float_of_len ar len) capacity)"

text \<open>
  The second loop of \<^verbatim>\<open>update\<close>: it walks the local list \<open>virus_pop\<close> and appends each
  offspring to the patient's new list, at address \<open>a\<close>. \<open>call\<close> is the method call
  \<^verbatim>\<open>virus.reproduce(...)\<close> with its arguments. \<open>NoChildException\<close> is caught, any other
  exception leaves the loop.
  \<^verbatim>\<open>reproduce\<close> returns the attributes of the offspring; the new object takes its
  address here, where it is appended.
\<close>

fun repro_loop ::
  "('v \<Rightarrow> 'f rng \<Rightarrow> (error + 'v) \<times> 'f rng) \<Rightarrow> ref \<Rightarrow> ref list \<Rightarrow> 'v heap \<Rightarrow> 'f rng
     \<Rightarrow> error option \<times> 'v heap \<times> 'f rng" where
  "repro_loop call a [] h s = (None, h, s)"
| "repro_loop call a (virus # rest) h s =
     (case call (objs h virus) s of
        (Inr offspring, s') \<Rightarrow>
          (let (r, h') = new_obj offspring h
           in repro_loop call a rest (list_append a r h') s')
      | (Inl e, s') \<Rightarrow>
          if e = NoChildException then repro_loop call a rest h s'
          else (Some e, h, s'))"

text \<open>
  The body shared by \<^verbatim>\<open>SimplePatient.update\<close> and \<^verbatim>\<open>Patient.update\<close>, which differ in
  the call of \<^verbatim>\<open>reproduce\<close> only. The result is the returned count or the exception, the
  patient, the store and the generator after the call. An exception of the first loop or
  of the density leaves the patient on its old list; an exception of the second loop
  leaves it on the new list, with the offspring appended so far.
\<close>

definition update_body ::
  "'f arith
     \<Rightarrow> ('f \<Rightarrow> ('f, 'a) SimpleVirus_scheme \<Rightarrow> 'f rng
           \<Rightarrow> (error + ('f, 'a) SimpleVirus_scheme) \<times> 'f rng)
     \<Rightarrow> 'b SimplePatient_scheme \<Rightarrow> (('f, 'a) SimpleVirus_scheme) heap \<Rightarrow> 'f rng
     \<Rightarrow> (error + nat) \<times> 'b SimplePatient_scheme \<times> (('f, 'a) SimpleVirus_scheme) heap
           \<times> 'f rng" where
  "update_body ar call self h s =
     (case clear_loop ar h (lsts h (viruses self)) (lsts h (viruses self)) s of
        (Inl e, s1) \<Rightarrow> (Inl e, self, h, s1)
      | (Inr virus_pop, s1) \<Rightarrow>
          (case density ar (length virus_pop) (maxPop self) of
             Inl e \<Rightarrow> (Inl e, self, h, s1)
           | Inr popDensity \<Rightarrow>
               (let (a, h1) = new_list virus_pop h;
                    self' = self\<lparr>viruses := a\<rparr>
                in case repro_loop (call popDensity) a virus_pop h1 s1 of
                     (Some e, h2, s2) \<Rightarrow> (Inl e, self', h2, s2)
                   | (None, h2, s2) \<Rightarrow> (Inr (getTotalPop self' h2), self', h2, s2))))"

definition SimplePatient_update ::
  "'f arith \<Rightarrow> SimplePatient \<Rightarrow> 'f SimpleVirus heap \<Rightarrow> 'f rng
     \<Rightarrow> (error + nat) \<times> SimplePatient \<times> 'f SimpleVirus heap \<times> 'f rng" where
  "SimplePatient_update ar self h s =
     update_body ar (\<lambda>popDensity virus. SimpleVirus_reproduce ar virus popDensity) self h s"

definition Patient_update ::
  "'f arith \<Rightarrow> Patient \<Rightarrow> 'f ResistantVirus heap \<Rightarrow> 'f rng
     \<Rightarrow> (error + nat) \<times> Patient \<times> 'f ResistantVirus heap \<times> 'f rng" where
  "Patient_update ar self h s =
     update_body ar
       (\<lambda>popDensity virus. ResistantVirus_reproduce ar virus popDensity (drugs self))
       self h s"


section \<open>Conditions on the draws of a step, and a driver for two patients\<close>

text \<open>
  The two conditions on the draws of one \<^verbatim>\<open>update\<close> call. \<open>all_survive\<close>: each call of
  \<open>doesClear\<close> of the first loop, made in the order of the list with the generator
  threaded through, returns \<open>False\<close>; \<open>after_clearance\<close> is the generator these calls
  leave. \<open>all_produce\<close>: each call of \<^verbatim>\<open>reproduce\<close> of the second loop returns an
  offspring.
\<close>

fun all_survive :: "'f arith \<Rightarrow> (('f, 'a) SimpleVirus_scheme) list \<Rightarrow> 'f rng \<Rightarrow> bool" where
  "all_survive ar [] s = True"
| "all_survive ar (v # vs) s =
     (case doesClear ar v s of (cleared, s') \<Rightarrow> \<not> cleared \<and> all_survive ar vs s')"

fun after_clearance ::
  "'f arith \<Rightarrow> (('f, 'a) SimpleVirus_scheme) list \<Rightarrow> 'f rng \<Rightarrow> 'f rng" where
  "after_clearance ar [] s = s"
| "after_clearance ar (v # vs) s = after_clearance ar vs (snd (doesClear ar v s))"

fun all_produce ::
  "('v \<Rightarrow> 'f rng \<Rightarrow> (error + 'v) \<times> 'f rng) \<Rightarrow> 'v list \<Rightarrow> 'f rng \<Rightarrow> bool" where
  "all_produce call [] s = True"
| "all_produce call (v # vs) s =
     (case call v s of
        (Inr offspring, s') \<Rightarrow> all_produce call vs s'
      | (Inl e, s') \<Rightarrow> False)"

text \<open>
  An experiment such as \<^verbatim>\<open>problem6\<close> holds two patients and calls \<^verbatim>\<open>update\<close> and
  \<^verbatim>\<open>addPrescription\<close> on them in some order. \<open>drive\<close> runs such a sequence of calls; the
  flag of a call says whether it goes to the first patient. The value returned by a call
  is dropped, and so is an exception: the state it leaves is the one the next call sees.
\<close>

datatype action = Update | AddPrescription string

fun drive ::
  "'f arith \<Rightarrow> (bool \<times> action) list
     \<Rightarrow> Patient \<times> Patient \<times> 'f ResistantVirus heap \<times> 'f rng
     \<Rightarrow> Patient \<times> Patient \<times> 'f ResistantVirus heap \<times> 'f rng" where
  "drive ar [] st = st"
| "drive ar ((first, Update) # rest) (p, q, h, s) =
     (if first
      then (case Patient_update ar p h s of
              (r, p', h', s') \<Rightarrow> drive ar rest (p', q, h', s'))
      else (case Patient_update ar q h s of
              (r, q', h', s') \<Rightarrow> drive ar rest (p, q', h', s')))"
| "drive ar ((first, AddPrescription newDrug) # rest) (p, q, h, s) =
     (if first
      then drive ar rest (snd (addPrescription p newDrug), q, h, s)
      else drive ar rest (p, snd (addPrescription q newDrug), h, s))"

text \<open>
  A patient is in the store when its list and the viruses in the list are allocated
  objects.
\<close>

definition in_store :: "'a SimplePatient_scheme \<Rightarrow> 'v heap \<Rightarrow> bool" where
  "in_store self h =
     (viruses self < nxt h \<and> list_all (\<lambda>x. x < nxt h) (lsts h (viruses self)))"


section \<open>Sample objects\<close>

text \<open>
  A sample arithmetic, for the instances below: the floats are real numbers and no
  operation rounds. It is not the arithmetic of Python. It computes what Python's
  binary64 arithmetic computes wherever the operands and the result are binary64
  numbers, and the sample values are chosen so: each is a binary fraction (1/2, 1/4,
  1/8, 3/8, the capacities 1024 and 512), and each difference, product and quotient
  taken on them has a few bits only. As in Python, a division by 0 raises
  \<open>ZeroDivisionError\<close>, and the conversion of an integer raises \<open>OverflowError\<close> from
  \<open>2^1024 - 2^970\<close> on, the least integer that rounds beyond the largest binary64
  number.
\<close>

definition unrounded :: "real arith" where
  "unrounded =
     \<lparr>fsub = (\<lambda>x y. x - y),
      fmul = (\<lambda>x y. x * y),
      fdiv = (\<lambda>x y. if y = 0 then Inl ZeroDivisionError else Inr (x / y)),
      fle = (\<lambda>x y. x \<le> y),
      fone = 1,
      float_of_int = (\<lambda>n. if 2 ^ 1024 - 2 ^ 970 \<le> \<bar>n\<bar> then Inl OverflowError
                            else Inr (real_of_int n)),
      float_of_len = real\<rparr>"

text \<open>
  \<open>virus_gu\<close> is resistant to guttagonol only (the dictionary of \<^verbatim>\<open>test_reproduce\<close>),
  \<open>virus_gr\<close> to grimpex only. \<open>heap1 v\<close> is a store with the virus \<open>v\<close> at address 0
  and the list \<open>[v]\<close> at address 1; \<open>patient1\<close> is a patient on that list.
\<close>

definition virus_gu :: "real ResistantVirus" where
  "virus_gu = \<lparr>maxBirthProb = 1/2, clearProb = 1/4,
     resistances = [''guttagonol'' \<mapsto> True, ''grimpex'' \<mapsto> False], mutProb = 1/8\<rparr>"

definition virus_gr :: "real ResistantVirus" where
  "virus_gr = \<lparr>maxBirthProb = 1/2, clearProb = 1/4,
     resistances = [''guttagonol'' \<mapsto> False, ''grimpex'' \<mapsto> True], mutProb = 1/8\<rparr>"

definition heap1 :: "real ResistantVirus \<Rightarrow> real ResistantVirus heap" where
  "heap1 v = \<lparr>objs = (\<lambda>_. v), lsts = (\<lambda>_. [])(1 := [0]), nxt = 2\<rparr>"

definition patient1 :: Patient where
  "patient1 = \<lparr>viruses = 1, maxPop = 1024, drugs = []\<rparr>"

text \<open>
  \<open>patient3\<close> is the patient that \<^verbatim>\<open>Patient(patientX.viruses, 512)\<close> builds on the list
  of \<open>patient1\<close>, and \<open>calls1\<close> a sequence of calls on the two. \<open>heap2\<close> holds two simple
  viruses and their list; \<open>patient2\<close> is a simple patient on that list. \<open>heap3\<close> holds
  \<open>virus_gu\<close>, \<open>virus_gr\<close> and their list; \<open>patient4\<close> is a patient on that list, under
  guttagonol.
\<close>

definition patient3 :: Patient where
  "patient3 = \<lparr>viruses = 1, maxPop = 512, drugs = []\<rparr>"

definition calls1 :: "(bool \<times> action) list" where
  "calls1 = [(False, Update), (True, Update), (False, AddPrescription ''grimpex''),
             (False, Update)]"

definition heap2 :: "real SimpleVirus heap" where
  "heap2 = \<lparr>objs = (\<lambda>_. \<lparr>maxBirthProb = 1/2, clearProb = 1/4\<rparr>),
             lsts = (\<lambda>_. [])(2 := [0, 1]), nxt = 3\<rparr>"

definition patient2 :: SimplePatient where
  "patient2 = \<lparr>viruses = 2, maxPop = 1024\<rparr>"

definition heap3 :: "real ResistantVirus heap" where
  "heap3 = \<lparr>objs = (\<lambda>_. virus_gu)(1 := virus_gr), lsts = (\<lambda>_. [])(2 := [0, 1]),
             nxt = 3\<rparr>"

definition patient4 :: Patient where
  "patient4 = \<lparr>viruses = 2, maxPop = 1024, drugs = [''guttagonol'']\<rparr>"

text \<open>\<open>patient5\<close> is \<open>patient1\<close> under guttagonol.\<close>

definition patient5 :: Patient where
  "patient5 = \<lparr>viruses = 1, maxPop = 1024, drugs = [''guttagonol'']\<rparr>"


section \<open>The stochastic thresholds\<close>

text \<open>
  Claim C6. Both threshold checks are inclusive at equality. With the injected draw \<open>r\<close>
  at the head of the generator, \<open>doesClear\<close> returns \<open>True\<close> exactly when
  \<open>r <= clearProb\<close>, and \<open>SimpleVirus.reproduce\<close> returns an offspring (with the parent's
  two probabilities) exactly when \<open>r <= maxBirthProb * (1 - popDensity)\<close>, and raises
  \<open>NoChildException\<close> otherwise. Here \<open><=\<close>, \<open>*\<close> and \<open>-\<close> are the float operations of
  the code, so the product is the float the code computes, rounding included. At
  equality, \<open>r = clearProb\<close> or \<open>r = maxBirthProb * (1 - popDensity)\<close>, the virus is
  cleared and the offspring is produced, for every draw \<open>r\<close> that is a number, that is,
  with \<open>r <= r\<close> (every float but NaN). This holds for all parameter values, those in
  \<open>[0, 1]\<close> included.
\<close>

theorem threshold_checks_inclusive:
  "fst (doesClear ar v (r ## s)) = fle ar r (clearProb v)
   \<and> fst (SimpleVirus_reproduce ar w d (r ## s)) =
       (if fle ar r (fmul ar (maxBirthProb w) (fsub ar (fone ar) d))
        then Inr \<lparr>maxBirthProb = maxBirthProb w, clearProb = clearProb w\<rparr>
        else Inl NoChildException)
   \<and> (fle ar r r \<and> clearProb v = r \<longrightarrow> fst (doesClear ar v (r ## s)))
   \<and> (fle ar r r \<and> fmul ar (maxBirthProb w) (fsub ar (fone ar) d) = r \<longrightarrow>
        fst (SimpleVirus_reproduce ar w d (r ## s)) =
          Inr \<lparr>maxBirthProb = maxBirthProb w, clearProb = clearProb w\<rparr>)"
  by (simp add: doesClear_def SimpleVirus_reproduce_def SimpleVirus_init_def random_random_def)

text \<open>
  The theorem at a simple virus with \<open>maxBirthProb = 1/2\<close> and \<open>clearProb = 1/4\<close>, the
  density \<open>1/2\<close> and the draw \<open>1/4\<close>, which is the clearance threshold and the product
  \<open>1/2 * (1 - 1/2)\<close>: the virus is cleared, and the offspring is produced.
\<close>

theorem threshold_checks_inclusive_witness:
  "fle unrounded (1/4) (1/4)
   \<and> fmul unrounded (1/2) (fsub unrounded (fone unrounded) (1/2)) = 1/4
   \<and> fst (doesClear unrounded \<lparr>maxBirthProb = 1/2, clearProb = 1/4\<rparr> ((1/4) ## sconst 0))
   \<and> fst (SimpleVirus_reproduce unrounded \<lparr>maxBirthProb = 1/2, clearProb = 1/4\<rparr> (1/2)
            ((1/4) ## sconst 0)) = Inr \<lparr>maxBirthProb = 1/2, clearProb = 1/4\<rparr>"
proof -
  have a: "fle unrounded (1/4) (1/4)"
    "fmul unrounded (1/2) (fsub unrounded (fone unrounded) (1/2)) = 1/4"
    by (simp_all add: unrounded_def)
  from threshold_checks_inclusive
    [of unrounded "\<lparr>maxBirthProb = 1/2, clearProb = 1/4\<rparr>" "1/4" "sconst 0"
        "\<lparr>maxBirthProb = 1/2, clearProb = 1/4\<rparr>" "1/2"] a
  show ?thesis by simp
qed


section \<open>Eligibility of a resistant virus\<close>

lemma drug_loop_keys:
  "set activeDrugs \<subseteq> dom (resistances v) \<Longrightarrow>
   drug_loop v activeDrugs b = Inr (b \<and> (\<forall>d\<in>set activeDrugs. resistances v d = Some True))"
  by (induction activeDrugs arbitrary: b) (auto simp: getResistance_def split: option.splits)

text \<open>
  Claim C4. Let every name in \<open>activeDrugs\<close> be a key of the virus's dictionary. If
  \<open>activeDrugs\<close> is not empty and the virus is not resistant to every drug in it,
  \<open>ResistantVirus.reproduce\<close> raises \<open>NoChildException\<close> and the generator is left as it
  was: no draw is consumed. If \<open>activeDrugs\<close> is empty or the virus is resistant to every
  listed drug, the call goes on to the birth draw: its outcome is the one of the
  comparison of the first draw with \<open>maxBirthProb * (1 - popDensity)\<close>, as the code
  computes it, whatever else the dictionary holds.
\<close>

theorem eligibility_gate:
  assumes "set activeDrugs \<subseteq> dom (resistances v)"
  shows "(activeDrugs \<noteq> [] \<and> \<not> (\<forall>d\<in>set activeDrugs. resistances v d = Some True) \<longrightarrow>
            ResistantVirus_reproduce ar v dens activeDrugs s = (Inl NoChildException, s))
       \<and> (activeDrugs = [] \<or> (\<forall>d\<in>set activeDrugs. resistances v d = Some True) \<longrightarrow>
            ResistantVirus_reproduce ar v dens activeDrugs s =
              (if fle ar (shd s) (fmul ar (maxBirthProb v) (fsub ar (fone ar) dens))
               then (Inr \<lparr>maxBirthProb = maxBirthProb v, clearProb = clearProb v,
                          resistances = (if fle ar (shd (stl s)) (mutProb v) then offres v
                                         else resistances v),
                          mutProb = mutProb v\<rparr>, stl (stl s))
               else (Inl NoChildException, stl s)))"
  using drug_loop_keys [OF assms, of True]
  by (auto simp: ResistantVirus_reproduce_def ResistantVirus_init_def random_random_def)

text \<open>
  The theorem at \<open>virus_gu\<close>, resistant to guttagonol only, with the density \<open>1/2\<close>:
  under both drugs it is refused without a draw; under guttagonol alone and under no
  drug it reaches the birth draw, which fails on the draw \<open>1/2\<close> and succeeds on the
  draw 0.
\<close>

theorem eligibility_gate_witness:
  "set [''guttagonol'', ''grimpex''] \<subseteq> dom (resistances virus_gu)
   \<and> ResistantVirus_reproduce unrounded virus_gu (1/2) [''guttagonol'', ''grimpex'']
       (sconst 0) = (Inl NoChildException, sconst 0)
   \<and> ResistantVirus_reproduce unrounded virus_gu (1/2) [''guttagonol''] (sconst (1/2)) =
       (Inl NoChildException, stl (sconst (1/2)))
   \<and> (\<exists>child. fst (ResistantVirus_reproduce unrounded virus_gu (1/2) [] (sconst 0)) =
         Inr child)"
proof -
  have h: "set [''guttagonol'', ''grimpex''] \<subseteq> dom (resistances virus_gu)"
      "set [''guttagonol''] \<subseteq> dom (resistances virus_gu)"
      "set [] \<subseteq> dom (resistances virus_gu)"
    by (simp_all add: virus_gu_def)
  from eligibility_gate [OF h(1), of unrounded "1/2" "sconst 0"]
       eligibility_gate [OF h(2), of unrounded "1/2" "sconst (1/2)"]
       eligibility_gate [OF h(3), of unrounded "1/2" "sconst 0"] h(1)
  show ?thesis by (simp add: virus_gu_def unrounded_def)
qed


section \<open>Mutation of the offspring\<close>

text \<open>
  Whatever the draws are, the dictionary of an offspring is the parent's or the parent's
  with every flag negated.
\<close>

lemma offspring_all_or_nothing:
  "ResistantVirus_reproduce ar v dens activeDrugs s = (Inr child, s') \<Longrightarrow>
   resistances child = offres v \<or> resistances child = resistances v"
  by (auto simp: ResistantVirus_reproduce_def ResistantVirus_init_def random_random_def
      split: sum.splits if_splits)

text \<open>
  Claim C1. The claim asks for one draw per trait, so that one trait can flip while
  another is inherited. The code makes a single mutation draw for the whole offspring.
  Here the parent is resistant to guttagonol only, no drug is active, and the generator
  returns 0 (birth), 0 (at most \<open>mutProb\<close>), then \<open>1/2\<close> (above \<open>mutProb\<close>): both traits
  flip, and the third value is still in the generator, never drawn for the second trait.
\<close>

theorem mutation_draw_flips_every_trait:
  "ResistantVirus_reproduce unrounded virus_gu (1/2) [] (0 ## 0 ## sconst (1/2)) =
     (Inr \<lparr>maxBirthProb = 1/2, clearProb = 1/4,
           resistances = [''guttagonol'' \<mapsto> False, ''grimpex'' \<mapsto> True], mutProb = 1/8\<rparr>,
      sconst (1/2))"
  by (auto simp: ResistantVirus_reproduce_def ResistantVirus_init_def random_random_def
      virus_gu_def offres_def fun_eq_iff unrounded_def)


section \<open>Counting the resistant population\<close>

text \<open>
  For a list of drugs that is not empty and names keys only, the count is the number of
  viruses resistant to the last drug of the list. For the empty list it is 0.
\<close>

lemma resist_flag_last:
  "set drugResist \<subseteq> dom (resistances v) \<Longrightarrow>
   resist_flag v drugResist b =
     Inr (if drugResist = [] then b else resistances v (last drugResist) = Some True)"
  by (induction drugResist arbitrary: b) (auto simp: getResistance_def split: option.splits)

lemma resist_loop_last:
  assumes "drugResist \<noteq> []"
    and "\<forall>x\<in>set vs. set drugResist \<subseteq> dom (resistances (objs h x))"
  shows "resist_loop h vs drugResist acc =
     Inr (acc @ filter (\<lambda>x. resistances (objs h x) (last drugResist) = Some True) vs)"
  using assms(2)
  by (induction vs arbitrary: acc) (simp_all add: resist_flag_last assms(1))

lemma getResistPop_last_drug:
  assumes "drugResist \<noteq> []"
    and "\<forall>x\<in>set (lsts h (viruses self)). set drugResist \<subseteq> dom (resistances (objs h x))"
  shows "getResistPop self h drugResist =
     Inr (length (filter (\<lambda>x. resistances (objs h x) (last drugResist) = Some True)
                    (lsts h (viruses self))))"
  by (simp add: getResistPop_def resist_loop_last [OF assms])

lemma resist_loop_empty: "resist_loop h vs [] acc = Inr acc"
  by (induction vs arbitrary: acc) simp_all

lemma getResistPop_empty: "getResistPop self h [] = Inr 0"
  by (simp add: getResistPop_def resist_loop_empty)

text \<open>
  Claim C2. The claim counts the viruses resistant to every drug of the list. The code
  keeps the flag of the last drug only: a patient whose single virus is resistant to
  grimpex and not to guttagonol has a count of 1 for the list guttagonol, grimpex.
\<close>

theorem getResistPop_counts_last_drug_only:
  "resistances virus_gr ''guttagonol'' = Some False
   \<and> getTotalPop patient1 (heap1 virus_gr) = 1
   \<and> getResistPop patient1 (heap1 virus_gr) [''guttagonol'', ''grimpex''] = Inr 1"
  by (simp add: getResistPop_def getTotalPop_def patient1_def heap1_def virus_gr_def
      getResistance_def)

text \<open>
  Claim C3. The claim gives the whole population for the empty list of drugs, every
  virus being resistant to all of no drugs, as the docstring's "resistances to all
  drugs in the drugResist list" has it and as \<open>ResistantVirus.reproduce\<close> treats an empty
  list. The code starts the flag of each virus as \<open>False\<close> and no drug sets it: a patient
  with one virus has a count of 0.
\<close>

theorem getResistPop_empty_list_counts_nothing:
  "getTotalPop patient1 (heap1 virus_gu) = 1
   \<and> getResistPop patient1 (heap1 virus_gu) [] = Inr 0"
  by (simp add: getResistPop_def getTotalPop_def patient1_def heap1_def)


section \<open>Construction\<close>

text \<open>
  Claim C7, as stated: a probability outside \<open>[0, 1]\<close> or a capacity that is not positive
  is rejected at construction. It fails: each constructor returns an object holding the
  invalid values.
\<close>

theorem constructors_accept_invalid_values:
  "SimpleVirus_init (2 :: real) (-1) = Inr \<lparr>maxBirthProb = 2, clearProb = -1\<rparr>
   \<and> ResistantVirus_init (-3 :: real) 7 Map.empty 5 =
       Inr \<lparr>maxBirthProb = -3, clearProb = 7, resistances = Map.empty, mutProb = 5\<rparr>
   \<and> SimplePatient_init 1 0 = Inr \<lparr>viruses = 1, maxPop = 0\<rparr>
   \<and> Patient_init 1 (-1000) = Inr \<lparr>viruses = 1, maxPop = -1000, drugs = []\<rparr>"
  by (simp add: SimpleVirus_init_def ResistantVirus_init_def SimplePatient_init_def
      Patient_init_def)

text \<open>
  Claim C7, amended: no constructor rejects anything. For all arguments it returns an
  object whose attributes are the arguments as given, neither clamped nor replaced by a
  default (and a patient starts with no drug).
\<close>

theorem constructors_never_reject:
  "(\<exists>v. SimpleVirus_init b c = Inr v \<and> maxBirthProb v = b \<and> clearProb v = c)
   \<and> (\<exists>v. ResistantVirus_init b c res m = Inr v \<and> maxBirthProb v = b \<and> clearProb v = c
          \<and> resistances v = res \<and> mutProb v = m)
   \<and> (\<exists>p. SimplePatient_init l n = Inr p \<and> viruses p = l \<and> maxPop p = n)
   \<and> (\<exists>p. Patient_init l n = Inr p \<and> viruses p = l \<and> maxPop p = n \<and> drugs p = [])"
  by (simp add: SimpleVirus_init_def ResistantVirus_init_def SimplePatient_init_def
      Patient_init_def)


section \<open>Drugs missing from the dictionary\<close>

lemma drug_loop_missing:
  assumes "d \<in> set activeDrugs" and "d \<notin> dom (resistances v)"
  shows "\<exists>d'. d' \<in> set activeDrugs \<and> d' \<notin> dom (resistances v)
            \<and> drug_loop v activeDrugs b = Inl (KeyError d')"
  using assms
proof (induction activeDrugs arbitrary: b)
  case Nil
  then show ?case by simp
next
  case (Cons x xs)
  show ?case
  proof (cases "resistances v x")
    case None
    then have "drug_loop v (x # xs) b = Inl (KeyError x)"
      by (simp add: getResistance_def)
    with None show ?thesis by auto
  next
    case (Some r)
    with Cons.prems have "d \<in> set xs" by auto
    from Cons.IH [OF this Cons.prems(2)] obtain d' where
      "d' \<in> set xs" "d' \<notin> dom (resistances v)"
      "drug_loop v xs (if \<not> r then False else b) = Inl (KeyError d')"
      by blast
    with Some show ?thesis by (auto simp: getResistance_def)
  qed
qed

lemma resist_flag_missing:
  assumes "d \<in> set drugResist" and "d \<notin> dom (resistances v)"
  shows "\<exists>d'. d' \<in> set drugResist \<and> d' \<notin> dom (resistances v)
            \<and> resist_flag v drugResist b = Inl (KeyError d')"
  using assms
proof (induction drugResist arbitrary: b)
  case Nil
  then show ?case by simp
next
  case (Cons x xs)
  show ?case
  proof (cases "resistances v x")
    case None
    then have "resist_flag v (x # xs) b = Inl (KeyError x)"
      by (simp add: getResistance_def)
    with None show ?thesis by auto
  next
    case (Some r)
    with Cons.prems have "d \<in> set xs" by auto
    from Cons.IH [OF this Cons.prems(2)] obtain d' where
      "d' \<in> set xs" "d' \<notin> dom (resistances v)"
      "resist_flag v xs r = Inl (KeyError d')"
      by blast
    with Some show ?thesis by (auto simp: getResistance_def)
  qed
qed

lemma resist_flag_error:
  "resist_flag v drugResist b = Inl e \<Longrightarrow> \<exists>d'. d' \<in> set drugResist \<and> e = KeyError d'"
  by (induction drugResist arbitrary: b)
     (auto simp: getResistance_def split: option.splits)

lemma resist_loop_missing:
  assumes "r \<in> set vs" and "d \<in> set drugResist" and "d \<notin> dom (resistances (objs h r))"
  shows "\<exists>d'. d' \<in> set drugResist \<and> resist_loop h vs drugResist acc = Inl (KeyError d')"
  using assms(1)
proof (induction vs arbitrary: acc)
  case Nil
  then show ?case by simp
next
  case (Cons x xs)
  show ?case
  proof (cases "resist_flag (objs h x) drugResist False")
    case (Inl e)
    with resist_flag_error [OF Inl] show ?thesis by auto
  next
    case (Inr flag)
    have "x \<noteq> r"
    proof
      assume "x = r"
      with resist_flag_missing [OF assms(2,3), of False] Inr show False by auto
    qed
    with Cons.prems have "r \<in> set xs" by auto
    from Cons.IH [OF this] Inr show ?thesis by auto
  qed
qed

text \<open>
  Claim C10. For a drug that is not a key of the virus's dictionary, \<open>getResistance\<close>
  raises \<open>KeyError\<close> and returns no default. So \<open>ResistantVirus.reproduce\<close> with such a
  drug among \<open>activeDrugs\<close> raises \<open>KeyError\<close> (for the first missing name of the list)
  with the generator as it was, before any draw; and \<open>getResistPop\<close> of a patient whose
  population holds such a virus, for a list naming such a drug, raises \<open>KeyError\<close> too.
\<close>

theorem missing_drug_raises_KeyError:
  assumes "drug \<notin> dom (resistances v)"
  shows "getResistance v drug = Inl (KeyError drug)
    \<and> (drug \<in> set activeDrugs \<longrightarrow>
         (\<exists>d'. d' \<in> set activeDrugs \<and> d' \<notin> dom (resistances v)
            \<and> ResistantVirus_reproduce ar v dens activeDrugs s = (Inl (KeyError d'), s)))
    \<and> (drug \<in> set drugResist \<and> r \<in> set (lsts h (viruses self)) \<and> objs h r = v \<longrightarrow>
         (\<exists>d'. d' \<in> set drugResist \<and> getResistPop self h drugResist = Inl (KeyError d')))"
proof (intro conjI impI)
  from assms show "getResistance v drug = Inl (KeyError drug)"
    by (auto simp: getResistance_def split: option.splits)
next
  assume "drug \<in> set activeDrugs"
  from drug_loop_missing [OF this assms, of True] obtain d' where
    "d' \<in> set activeDrugs" "d' \<notin> dom (resistances v)"
    "drug_loop v activeDrugs True = Inl (KeyError d')" by blast
  then show "\<exists>d'. d' \<in> set activeDrugs \<and> d' \<notin> dom (resistances v)
            \<and> ResistantVirus_reproduce ar v dens activeDrugs s = (Inl (KeyError d'), s)"
    by (auto simp: ResistantVirus_reproduce_def)
next
  assume a: "drug \<in> set drugResist \<and> r \<in> set (lsts h (viruses self)) \<and> objs h r = v"
  with assms have "drug \<notin> dom (resistances (objs h r))" by simp
  from resist_loop_missing [OF _ _ this, of "lsts h (viruses self)" drugResist "[]"] a
  obtain d' where "d' \<in> set drugResist"
    "resist_loop h (lsts h (viruses self)) drugResist [] = Inl (KeyError d')" by blast
  then show "\<exists>d'. d' \<in> set drugResist \<and> getResistPop self h drugResist = Inl (KeyError d')"
    by (auto simp: getResistPop_def)
qed

text \<open>
  The theorem at \<open>virus_gu\<close>, whose dictionary has the keys guttagonol and grimpex,
  and a third drug.
\<close>

theorem missing_drug_raises_KeyError_witness:
  "''tamiflu'' \<notin> dom (resistances virus_gu)
   \<and> getResistance virus_gu ''tamiflu'' = Inl (KeyError ''tamiflu'')
   \<and> ResistantVirus_reproduce unrounded virus_gu 0 [''tamiflu''] (sconst 0) =
       (Inl (KeyError ''tamiflu''), sconst 0)
   \<and> getResistPop patient1 (heap1 virus_gu) [''tamiflu''] = Inl (KeyError ''tamiflu'')"
proof -
  have h: "''tamiflu'' \<notin> dom (resistances virus_gu)"
    by (simp add: virus_gu_def)
  have l: "0 \<in> set (lsts (heap1 virus_gu) (viruses patient1))" "objs (heap1 virus_gu) 0 = virus_gu"
    by (simp_all add: heap1_def patient1_def)
  from missing_drug_raises_KeyError [OF h, of "[''tamiflu'']" unrounded 0 "sconst 0"
      "[''tamiflu'']" 0
      "heap1 virus_gu" patient1] h l
  show ?thesis by auto
qed


section \<open>What one update changes\<close>

text \<open>
  The first loop only removes elements from the local copy. The second loop allocates
  the offspring and appends to the list at \<open>a\<close>: every other list, and every object
  that was allocated before, is as it was.
\<close>

lemma clear_loop_subset:
  "clear_loop ar h xs virus_pop s = (Inr virus_pop', s') \<Longrightarrow> set virus_pop' \<subseteq> set virus_pop"
proof (induction xs arbitrary: virus_pop s)
  case Nil
  then show ?case by simp
next
  case (Cons x xs)
  show ?case
  proof (cases "fst (doesClear ar (objs h x) s)")
    case False
    with Cons.prems have "clear_loop ar h xs virus_pop (snd (doesClear ar (objs h x) s)) = (Inr virus_pop', s')"
      by (simp add: split_beta)
    from Cons.IH [OF this] show ?thesis .
  next
    case True
    with Cons.prems have "x \<in> set virus_pop"
      and "clear_loop ar h xs (remove1 x virus_pop) (snd (doesClear ar (objs h x) s)) = (Inr virus_pop', s')"
      by (auto simp: split_beta list_remove_def split: if_splits)
    from Cons.IH [OF this(2)] show ?thesis
      using set_remove1_subset [of x virus_pop] by blast
  qed
qed

lemma clear_loop_length:
  "clear_loop ar h xs virus_pop s = (Inr virus_pop', s') \<Longrightarrow> length virus_pop' \<le> length virus_pop"
proof (induction xs arbitrary: virus_pop s)
  case Nil
  then show ?case by simp
next
  case (Cons x xs)
  show ?case
  proof (cases "fst (doesClear ar (objs h x) s)")
    case False
    with Cons.prems have "clear_loop ar h xs virus_pop (snd (doesClear ar (objs h x) s)) = (Inr virus_pop', s')"
      by (simp add: split_beta)
    from Cons.IH [OF this] show ?thesis .
  next
    case True
    with Cons.prems have "x \<in> set virus_pop"
      and "clear_loop ar h xs (remove1 x virus_pop) (snd (doesClear ar (objs h x) s)) = (Inr virus_pop', s')"
      by (auto simp: split_beta list_remove_def split: if_splits)
    from Cons.IH [OF this(2)] this(1) show ?thesis
      by (simp add: length_remove1)
  qed
qed

lemma repro_loop_frame:
  "repro_loop call a vs h s = (r, h', s') \<Longrightarrow>
     nxt h \<le> nxt h'
     \<and> (\<forall>b. b \<noteq> a \<longrightarrow> lsts h' b = lsts h b)
     \<and> (\<forall>x<nxt h. objs h' x = objs h x)
     \<and> set (lsts h' a) \<subseteq> set (lsts h a) \<union> {nxt h..<nxt h'}"
proof (induction vs arbitrary: h s)
  case Nil
  then show ?case by simp
next
  case (Cons v vs)
  obtain res s1 where c: "call (objs h v) s = (res, s1)" by (cases "call (objs h v) s")
  show ?case
  proof (cases res)
    case (Inl e)
    show ?thesis
    proof (cases "e = NoChildException")
      case True
      with Cons.prems c Inl have "repro_loop call a vs h s1 = (r, h', s')" by simp
      from Cons.IH [OF this] show ?thesis .
    next
      case False
      with Cons.prems c Inl show ?thesis by simp
    qed
  next
    case (Inr offspring)
    define h1 where "h1 = list_append a (nxt h) (snd (new_obj offspring h))"
    from Cons.prems c Inr have "repro_loop call a vs h1 s1 = (r, h', s')"
      by (simp add: h1_def new_obj_def)
    from Cons.IH [OF this] have ih: "nxt h1 \<le> nxt h'"
      "\<forall>b. b \<noteq> a \<longrightarrow> lsts h' b = lsts h1 b"
      "\<forall>x<nxt h1. objs h' x = objs h1 x"
      "set (lsts h' a) \<subseteq> set (lsts h1 a) \<union> {nxt h1..<nxt h'}" by simp_all
    have h1: "nxt h1 = Suc (nxt h)" "\<And>b. b \<noteq> a \<Longrightarrow> lsts h1 b = lsts h b"
      "\<And>x. x < nxt h \<Longrightarrow> objs h1 x = objs h x" "lsts h1 a = lsts h a @ [nxt h]"
      by (simp_all add: h1_def new_obj_def list_append_def)
    have "nxt h \<le> nxt h'" using ih(1) h1(1) by simp
    moreover have "\<forall>b. b \<noteq> a \<longrightarrow> lsts h' b = lsts h b" using ih(2) h1(2) by simp
    moreover have "\<forall>x<nxt h. objs h' x = objs h x" using ih(3) h1(1,3) by simp
    moreover have "set (lsts h' a) \<subseteq> set (lsts h a) \<union> {nxt h..<nxt h'}"
      using ih(4) ih(1) h1(1,4) by auto
    ultimately show ?thesis by simp
  qed
qed

lemma repro_loop_length:
  "repro_loop call a vs h s = (r, h', s') \<Longrightarrow>
     length (lsts h' a) \<le> length (lsts h a) + length vs"
proof (induction vs arbitrary: h s)
  case Nil
  then show ?case by simp
next
  case (Cons v vs)
  obtain res s1 where c: "call (objs h v) s = (res, s1)" by (cases "call (objs h v) s")
  show ?case
  proof (cases res)
    case (Inl e)
    show ?thesis
    proof (cases "e = NoChildException")
      case True
      with Cons.prems c Inl have "repro_loop call a vs h s1 = (r, h', s')" by simp
      from Cons.IH [OF this] show ?thesis by simp
    next
      case False
      with Cons.prems c Inl show ?thesis by simp
    qed
  next
    case (Inr offspring)
    define h1 where "h1 = list_append a (nxt h) (snd (new_obj offspring h))"
    from Cons.prems c Inr have "repro_loop call a vs h1 s1 = (r, h', s')"
      by (simp add: h1_def new_obj_def)
    from Cons.IH [OF this] have "length (lsts h' a) \<le> length (lsts h1 a) + length vs" .
    moreover have "lsts h1 a = lsts h a @ [nxt h]"
      by (simp add: h1_def new_obj_def list_append_def)
    ultimately show ?thesis by simp
  qed
qed

text \<open>
  An update either leaves the patient and the store as they were (when it raises before
  the new list is bound) or binds the patient to a list at a fresh address. No list and
  no object allocated before the call is changed.
\<close>

lemma update_body_frame:
  assumes "update_body ar call self h s = (r, self', h', s')"
  shows "nxt h \<le> nxt h'"
    and "\<forall>b<nxt h. lsts h' b = lsts h b \<and> objs h' b = objs h b"
    and "self' = self \<and> h' = h \<or>
         self' = self\<lparr>viruses := nxt h\<rparr> \<and> nxt h < nxt h'
           \<and> set (lsts h' (nxt h)) \<subseteq> set (lsts h (viruses self)) \<union> {nxt h..<nxt h'}"
proof -
  let ?l = "lsts h (viruses self)"
  obtain cr s1 where c: "clear_loop ar h ?l ?l s = (cr, s1)" by (cases "clear_loop ar h ?l ?l s")
  have "nxt h \<le> nxt h' \<and> (\<forall>b<nxt h. lsts h' b = lsts h b \<and> objs h' b = objs h b)
     \<and> (self' = self \<and> h' = h \<or>
         self' = self\<lparr>viruses := nxt h\<rparr> \<and> nxt h < nxt h'
           \<and> set (lsts h' (nxt h)) \<subseteq> set (lsts h (viruses self)) \<union> {nxt h..<nxt h'})"
  proof (cases cr)
    case (Inl e)
    with assms c show ?thesis by (simp add: update_body_def)
  next
    case (Inr virus_pop)
    show ?thesis
    proof (cases "density ar (length virus_pop) (maxPop self)")
      case (Inl e)
      with assms c Inr show ?thesis by (simp add: update_body_def)
    next
      case dens: (Inr d)
      define h1 where "h1 = snd (new_list virus_pop h)"
      obtain e h2 s2 where rl: "repro_loop (call d) (nxt h) virus_pop h1 s1 = (e, h2, s2)"
        by (cases "repro_loop (call d) (nxt h) virus_pop h1 s1")
      from assms c Inr dens rl have res: "self' = self\<lparr>viruses := nxt h\<rparr>" "h' = h2"
        by (auto simp: update_body_def new_list_def h1_def Let_def split: option.splits)
      have h1: "nxt h1 = Suc (nxt h)" "lsts h1 (nxt h) = virus_pop"
        "\<And>b. b \<noteq> nxt h \<Longrightarrow> lsts h1 b = lsts h b" "objs h1 = objs h"
        by (simp_all add: h1_def new_list_def)
      from repro_loop_frame [OF rl] have f: "nxt h1 \<le> nxt h2"
        "\<forall>b. b \<noteq> nxt h \<longrightarrow> lsts h2 b = lsts h1 b"
        "\<forall>x<nxt h1. objs h2 x = objs h1 x"
        "set (lsts h2 (nxt h)) \<subseteq> set (lsts h1 (nxt h)) \<union> {nxt h1..<nxt h2}" by simp_all
      from clear_loop_subset [OF c [unfolded Inr]] have sub: "set virus_pop \<subseteq> set ?l" .
      have "nxt h < nxt h'" using f(1) h1(1) res by simp
      moreover have "\<forall>b<nxt h. lsts h' b = lsts h b \<and> objs h' b = objs h b"
        using f(2,3) h1 res by simp
      moreover have "set (lsts h' (nxt h)) \<subseteq> set ?l \<union> {nxt h..<nxt h'}"
        using f(4) sub h1(1,2) res by auto
      ultimately show ?thesis using res by simp
    qed
  qed
  then show "nxt h \<le> nxt h'"
    and "\<forall>b<nxt h. lsts h' b = lsts h b \<and> objs h' b = objs h b"
    and "self' = self \<and> h' = h \<or>
         self' = self\<lparr>viruses := nxt h\<rparr> \<and> nxt h < nxt h'
           \<and> set (lsts h' (nxt h)) \<subseteq> set (lsts h (viruses self)) \<union> {nxt h..<nxt h'}"
    by simp_all
qed

lemma update_body_bound:
  "getTotalPop (fst (snd (update_body ar call self h s))) (fst (snd (snd (update_body ar call self h s))))
     \<le> 2 * getTotalPop self h"
proof -
  let ?l = "lsts h (viruses self)"
  obtain cr s1 where c: "clear_loop ar h ?l ?l s = (cr, s1)" by (cases "clear_loop ar h ?l ?l s")
  show ?thesis
  proof (cases cr)
    case (Inl e)
    with c show ?thesis by (simp add: update_body_def)
  next
    case (Inr virus_pop)
    show ?thesis
    proof (cases "density ar (length virus_pop) (maxPop self)")
      case (Inl e)
      with c Inr show ?thesis by (simp add: update_body_def)
    next
      case dens: (Inr d)
      define h1 where "h1 = snd (new_list virus_pop h)"
      obtain e h2 s2 where rl: "repro_loop (call d) (nxt h) virus_pop h1 s1 = (e, h2, s2)"
        by (cases "repro_loop (call d) (nxt h) virus_pop h1 s1")
      from c Inr dens rl have res:
        "fst (snd (update_body ar call self h s)) = self\<lparr>viruses := nxt h\<rparr>"
        "fst (snd (snd (update_body ar call self h s))) = h2"
        by (auto simp: update_body_def new_list_def h1_def Let_def split: option.splits)
      have "lsts h1 (nxt h) = virus_pop" by (simp add: h1_def new_list_def)
      with repro_loop_length [OF rl] have "length (lsts h2 (nxt h)) \<le> 2 * length virus_pop"
        by simp
      moreover from clear_loop_length [OF c [unfolded Inr]] have "length virus_pop \<le> length ?l" .
      ultimately show ?thesis by (simp add: res getTotalPop_def)
    qed
  qed
qed


section \<open>Prescriptions\<close>

lemma Patient_update_drugs: "drugs (fst (snd (Patient_update ar self h s))) = drugs self"
proof -
  obtain r self' h' s' where u: "Patient_update ar self h s = (r, self', h', s')"
    by (cases "Patient_update ar self h s")
  from update_body_frame(3) [OF u [unfolded Patient_update_def]]
  have "drugs self' = drugs self" by auto
  with u show ?thesis by simp
qed

text \<open>
  Claim C8. \<open>addPrescription\<close> with a drug that is already administered changes
  nothing; with a new drug it appends the drug at the end. So a second call with the same
  name leaves the patient as the first call left it. No operation removes a drug: the
  list before \<open>addPrescription\<close> is a prefix of the list after it, and \<open>update\<close> leaves
  the list as it is (the getters change no state).
\<close>

theorem addPrescription_idempotent:
  "(newDrug \<in> set (drugs self) \<longrightarrow> addPrescription self newDrug = (drugs self, self))
   \<and> (newDrug \<notin> set (drugs self) \<longrightarrow>
        addPrescription self newDrug =
          (drugs self @ [newDrug], self\<lparr>drugs := drugs self @ [newDrug]\<rparr>))
   \<and> snd (addPrescription (snd (addPrescription self newDrug)) newDrug) =
        snd (addPrescription self newDrug)
   \<and> prefix (drugs self) (drugs (snd (addPrescription self newDrug)))
   \<and> drugs (fst (snd (Patient_update ar self h s))) = drugs self"
  by (simp add: addPrescription_def Patient_update_drugs)

text \<open>
  The theorem at a patient under guttagonol: guttagonol again changes nothing, grimpex
  is appended.
\<close>

theorem addPrescription_idempotent_witness:
  "addPrescription (patient1\<lparr>drugs := [''guttagonol'']\<rparr>) ''guttagonol'' =
     ([''guttagonol''], patient1\<lparr>drugs := [''guttagonol'']\<rparr>)
   \<and> addPrescription (patient1\<lparr>drugs := [''guttagonol'']\<rparr>) ''grimpex'' =
     ([''guttagonol'', ''grimpex''], patient1\<lparr>drugs := [''guttagonol'', ''grimpex'']\<rparr>)"
proof -
  have "''guttagonol'' \<in> set (drugs (patient1\<lparr>drugs := [''guttagonol'']\<rparr>))"
    and "''grimpex'' \<notin> set (drugs (patient1\<lparr>drugs := [''guttagonol'']\<rparr>))"
    by simp_all
  with addPrescription_idempotent
         [of "''guttagonol''" "patient1\<lparr>drugs := [''guttagonol'']\<rparr>" unrounded
            "heap1 virus_gu" "sconst 0"]
       addPrescription_idempotent
         [of "''grimpex''" "patient1\<lparr>drugs := [''guttagonol'']\<rparr>" unrounded
            "heap1 virus_gu" "sconst 0"]
  show ?thesis by simp
qed


section \<open>A step doubles the population at most\<close>

lemma clear_loop_all_survive:
  "all_survive ar (map (objs h) xs) s \<Longrightarrow>
   clear_loop ar h xs virus_pop s = (Inr virus_pop, after_clearance ar (map (objs h) xs) s)"
  by (induction xs arbitrary: s) (auto split: prod.splits)

lemma repro_loop_all_produce:
  assumes "\<forall>x\<in>set vs. x < nxt h" and "all_produce call (map (objs h) vs) s"
  shows "\<exists>h' s'. repro_loop call a vs h s = (None, h', s')
           \<and> length (lsts h' a) = length (lsts h a) + length vs"
  using assms
proof (induction vs arbitrary: h s)
  case Nil
  then show ?case by simp
next
  case (Cons v vs)
  from Cons.prems(2) obtain c s1 where c: "call (objs h v) s = (Inr c, s1)"
    and rest: "all_produce call (map (objs h) vs) s1"
    by (auto split: prod.splits sum.splits)
  define h1 where "h1 = list_append a (nxt h) (snd (new_obj c h))"
  have h1: "nxt h1 = Suc (nxt h)" "\<And>x. x < nxt h \<Longrightarrow> objs h1 x = objs h x"
    "lsts h1 a = lsts h a @ [nxt h]"
    by (simp_all add: h1_def new_obj_def list_append_def)
  from Cons.prems(1) have lt: "\<forall>x\<in>set vs. x < nxt h" by simp
  with h1(2) have meq: "map (objs h1) vs = map (objs h) vs" by simp
  from rest have r1: "all_produce call (map (objs h1) vs) s1" by (simp only: meq)
  from lt h1(1) have "\<forall>x\<in>set vs. x < nxt h1" by auto
  from Cons.IH [OF this r1] obtain h' s' where
    "repro_loop call a vs h1 s1 = (None, h', s')"
    "length (lsts h' a) = length (lsts h1 a) + length vs" by blast
  with c h1(3) show ?case by (simp add: h1_def new_obj_def)
qed

lemma update_body_doubles:
  assumes wf: "\<forall>x\<in>set (lsts h (viruses self)). x < nxt h"
    and dens: "density ar (length (lsts h (viruses self))) (maxPop self) = Inr d"
    and surv: "all_survive ar (map (objs h) (lsts h (viruses self))) s"
    and prod: "all_produce (call d) (map (objs h) (lsts h (viruses self)))
                 (after_clearance ar (map (objs h) (lsts h (viruses self))) s)"
  shows "\<exists>self' h' s'. update_body ar call self h s =
             (Inr (2 * length (lsts h (viruses self))), self', h', s')
           \<and> getTotalPop self' h' = 2 * length (lsts h (viruses self))"
proof -
  let ?l = "lsts h (viruses self)"
  let ?s1 = "after_clearance ar (map (objs h) ?l) s"
  define h1 where "h1 = snd (new_list ?l h)"
  have h1: "nxt h1 = Suc (nxt h)" "lsts h1 (nxt h) = ?l" "objs h1 = objs h"
    by (simp_all add: h1_def new_list_def)
  have c: "clear_loop ar h ?l ?l s = (Inr ?l, ?s1)"
    by (rule clear_loop_all_survive [OF surv])
  from wf h1(1) have "\<forall>x\<in>set ?l. x < nxt h1" by auto
  moreover from prod h1(3) have "all_produce (call d) (map (objs h1) ?l) ?s1" by simp
  ultimately obtain h2 s2 where r: "repro_loop (call d) (nxt h) ?l h1 ?s1 = (None, h2, s2)"
    and len: "length (lsts h2 (nxt h)) = length (lsts h1 (nxt h)) + length ?l"
    using repro_loop_all_produce [of ?l h1 "call d" ?s1 "nxt h"] by blast
  from c dens r have "update_body ar call self h s =
      (Inr (getTotalPop (self\<lparr>viruses := nxt h\<rparr>) h2), self\<lparr>viruses := nxt h\<rparr>, h2, s2)"
    by (simp add: update_body_def new_list_def h1_def Let_def)
  moreover from len h1(2) have "getTotalPop (self\<lparr>viruses := nxt h\<rparr>) h2 = 2 * length ?l"
    by (simp add: getTotalPop_def)
  ultimately show ?thesis by auto
qed

text \<open>
  When the density raises, \<^verbatim>\<open>update\<close> raises the same exception after the clearance
  draws and leaves the patient on its old list. With the sample arithmetic this happens
  for the capacity 0 and for a capacity beyond the floats.
\<close>

lemma update_without_density:
  "fst (SimplePatient_update unrounded (patient2\<lparr>maxPop := 0\<rparr>) heap2 (sconst (1/2))) =
     Inl ZeroDivisionError
   \<and> fst (SimplePatient_update unrounded (patient2\<lparr>maxPop := 10 ^ 309\<rparr>) heap2
          (sconst (1/2))) = Inl OverflowError"
  by (simp add: SimplePatient_update_def update_body_def density_def unrounded_def
      patient2_def heap2_def doesClear_def random_random_def)

text \<open>
  Claim C5, as stated: for every patient, one \<^verbatim>\<open>update\<close> call in which every clearance
  draw lets the virus survive and every reproduction draw yields an offspring leaves a
  population of \<open>2N\<close>. It fails in two ways. \<open>patient4\<close> is under guttagonol and holds a
  virus resistant to it and a virus that is not; the two clearance draws are \<open>1/2\<close>,
  above \<open>clearProb\<close>, and every later draw is 0, on which a birth succeeds. The second
  virus is refused without a draw, and the population goes from 2 to 3. And a patient
  with the capacity 0 has no density: \<^verbatim>\<open>update\<close> raises \<open>ZeroDivisionError\<close> after the
  clearance draws and the population stays 2.
\<close>

theorem update_does_not_always_double:
  "getTotalPop patient4 heap3 = 2
   \<and> all_survive unrounded (map (objs heap3) (lsts heap3 (viruses patient4)))
       ((1/2) ## (1/2) ## sconst 0)
   \<and> (case Patient_update unrounded patient4 heap3 ((1/2) ## (1/2) ## sconst 0) of
        (r, p', h', s') \<Rightarrow> r = Inr 3 \<and> getTotalPop p' h' = 3)
   \<and> getTotalPop (patient2\<lparr>maxPop := 0\<rparr>) heap2 = 2
   \<and> all_survive unrounded (map (objs heap2) (lsts heap2 (viruses (patient2\<lparr>maxPop := 0\<rparr>))))
       (sconst (1/2))
   \<and> (case SimplePatient_update unrounded (patient2\<lparr>maxPop := 0\<rparr>) heap2 (sconst (1/2)) of
        (r, p', h', s') \<Rightarrow> r = Inl ZeroDivisionError \<and> getTotalPop p' h' = 2)"
  by (simp add: Patient_update_def SimplePatient_update_def update_body_def density_def
      unrounded_def patient4_def patient2_def heap3_def heap2_def virus_gu_def virus_gr_def
      doesClear_def random_random_def list_remove_def new_list_def new_obj_def
      list_append_def ResistantVirus_reproduce_def SimpleVirus_reproduce_def
      getResistance_def ResistantVirus_init_def SimpleVirus_init_def getTotalPop_def Let_def)

text \<open>
  Claim C5, amended. Take a patient whose viruses are allocated objects and for which the
  density of the step can be computed: \<^verbatim>\<open>float(self.maxPop)\<close> and the division raise
  nothing, so the capacity is not 0. If in one \<^verbatim>\<open>update\<close> call every clearance draw lets
  the virus survive and every call of \<^verbatim>\<open>reproduce\<close> returns an offspring (for a patient
  under drugs this asks that each virus is resistant to every administered drug, and
  that its birth draw succeeds), the call returns \<open>2N\<close> and the population is \<open>2N\<close>
  after it, for the population \<open>N\<close> before it: this holds for \<^verbatim>\<open>SimplePatient.update\<close> and
  for \<^verbatim>\<open>Patient.update\<close>. And whatever the patient and the draws are, the population after
  one call is at most \<open>2N\<close>: an offspring appended during the step is not asked to
  reproduce within the step.
\<close>

theorem update_doubles_population:
  "((\<forall>x\<in>set (lsts h (viruses p)). x < nxt h)
      \<and> density ar (getTotalPop p h) (maxPop p) = Inr d
      \<and> all_survive ar (map (objs h) (lsts h (viruses p))) s
      \<and> all_produce (\<lambda>virus. SimpleVirus_reproduce ar virus d)
          (map (objs h) (lsts h (viruses p)))
          (after_clearance ar (map (objs h) (lsts h (viruses p))) s)
     \<longrightarrow> (\<exists>p' h' s'. SimplePatient_update ar p h s = (Inr (2 * getTotalPop p h), p', h', s')
            \<and> getTotalPop p' h' = 2 * getTotalPop p h))
   \<and> ((\<forall>x\<in>set (lsts g (viruses q)). x < nxt g)
      \<and> density ar (getTotalPop q g) (maxPop q) = Inr e
      \<and> all_survive ar (map (objs g) (lsts g (viruses q))) t
      \<and> all_produce (\<lambda>virus. ResistantVirus_reproduce ar virus e (drugs q))
          (map (objs g) (lsts g (viruses q)))
          (after_clearance ar (map (objs g) (lsts g (viruses q))) t)
     \<longrightarrow> (\<exists>q' g' t'. Patient_update ar q g t = (Inr (2 * getTotalPop q g), q', g', t')
            \<and> getTotalPop q' g' = 2 * getTotalPop q g))
   \<and> getTotalPop (fst (snd (SimplePatient_update ar p h s)))
        (fst (snd (snd (SimplePatient_update ar p h s)))) \<le> 2 * getTotalPop p h
   \<and> getTotalPop (fst (snd (Patient_update ar q g t)))
        (fst (snd (snd (Patient_update ar q g t)))) \<le> 2 * getTotalPop q g"
proof (intro conjI impI)
  assume "(\<forall>x\<in>set (lsts h (viruses p)). x < nxt h)
      \<and> density ar (getTotalPop p h) (maxPop p) = Inr d
      \<and> all_survive ar (map (objs h) (lsts h (viruses p))) s
      \<and> all_produce (\<lambda>virus. SimpleVirus_reproduce ar virus d)
          (map (objs h) (lsts h (viruses p)))
          (after_clearance ar (map (objs h) (lsts h (viruses p))) s)"
  then show "\<exists>p' h' s'. SimplePatient_update ar p h s = (Inr (2 * getTotalPop p h), p', h', s')
            \<and> getTotalPop p' h' = 2 * getTotalPop p h"
    unfolding SimplePatient_update_def getTotalPop_def [of p h]
    using update_body_doubles
      [of h p ar d s "\<lambda>popDensity virus. SimpleVirus_reproduce ar virus popDensity"]
    by simp
next
  assume "(\<forall>x\<in>set (lsts g (viruses q)). x < nxt g)
      \<and> density ar (getTotalPop q g) (maxPop q) = Inr e
      \<and> all_survive ar (map (objs g) (lsts g (viruses q))) t
      \<and> all_produce (\<lambda>virus. ResistantVirus_reproduce ar virus e (drugs q))
          (map (objs g) (lsts g (viruses q)))
          (after_clearance ar (map (objs g) (lsts g (viruses q))) t)"
  then show "\<exists>q' g' t'. Patient_update ar q g t = (Inr (2 * getTotalPop q g), q', g', t')
            \<and> getTotalPop q' g' = 2 * getTotalPop q g"
    unfolding Patient_update_def getTotalPop_def [of q g]
    using update_body_doubles
      [of g q ar e t
          "\<lambda>popDensity virus. ResistantVirus_reproduce ar virus popDensity (drugs q)"]
    by simp
next
  show "getTotalPop (fst (snd (SimplePatient_update ar p h s)))
        (fst (snd (snd (SimplePatient_update ar p h s)))) \<le> 2 * getTotalPop p h"
    unfolding SimplePatient_update_def by (rule update_body_bound)
next
  show "getTotalPop (fst (snd (Patient_update ar q g t)))
        (fst (snd (snd (Patient_update ar q g t)))) \<le> 2 * getTotalPop q g"
    unfolding Patient_update_def by (rule update_body_bound)
qed

text \<open>
  The theorem at \<open>patient2\<close>, a simple patient with two viruses, and at \<open>patient5\<close>, a
  patient under guttagonol with one virus resistant to it, both with the capacity 1024: the draws \<open>1/2\<close> let each
  virus survive, the draws 0 give each an offspring. The densities are \<open>2/1024\<close> and
  \<open>1/1024\<close>.
\<close>

theorem update_doubles_population_witness:
  "getTotalPop patient2 heap2 = 2
   \<and> density unrounded (getTotalPop patient2 heap2) (maxPop patient2) = Inr (1/512)
   \<and> fst (SimplePatient_update unrounded patient2 heap2 ((1/2) ## (1/2) ## sconst 0)) = Inr 4
   \<and> getTotalPop patient5 (heap1 virus_gu) = 1
   \<and> fst (Patient_update unrounded patient5 (heap1 virus_gu)
        ((1/2) ## sconst 0)) = Inr 2"
proof -
  have n: "getTotalPop patient2 heap2 = 2"
    "getTotalPop patient5 (heap1 virus_gu) = 1"
    by (simp_all add: getTotalPop_def heap2_def patient2_def heap1_def patient5_def)
  have m: "maxPop patient2 = 1024" "maxPop patient5 = 1024"
    by (simp_all add: patient2_def patient5_def)
  have d: "density unrounded (getTotalPop patient2 heap2) (maxPop patient2) = Inr (1/512)"
    "density unrounded (getTotalPop patient5 (heap1 virus_gu))
       (maxPop patient5) = Inr (1/1024)"
    by (simp_all add: n m density_def unrounded_def)
  have a: "(\<forall>x\<in>set (lsts heap2 (viruses patient2)). x < nxt heap2)
      \<and> density unrounded (getTotalPop patient2 heap2) (maxPop patient2) = Inr (1/512)
      \<and> all_survive unrounded (map (objs heap2) (lsts heap2 (viruses patient2)))
          ((1/2) ## (1/2) ## sconst 0)
      \<and> all_produce (\<lambda>virus. SimpleVirus_reproduce unrounded virus (1/512))
          (map (objs heap2) (lsts heap2 (viruses patient2)))
          (after_clearance unrounded (map (objs heap2) (lsts heap2 (viruses patient2)))
             ((1/2) ## (1/2) ## sconst 0))"
    by (simp add: d(1)) (simp add: heap2_def patient2_def doesClear_def random_random_def
        SimpleVirus_reproduce_def SimpleVirus_init_def unrounded_def)
  let ?q = patient5
  let ?g = "heap1 virus_gu"
  have b: "(\<forall>x\<in>set (lsts ?g (viruses ?q)). x < nxt ?g)
      \<and> density unrounded (getTotalPop ?q ?g) (maxPop ?q) = Inr (1/1024)
      \<and> all_survive unrounded (map (objs ?g) (lsts ?g (viruses ?q))) ((1/2) ## sconst 0)
      \<and> all_produce (\<lambda>virus. ResistantVirus_reproduce unrounded virus (1/1024) (drugs ?q))
          (map (objs ?g) (lsts ?g (viruses ?q)))
          (after_clearance unrounded (map (objs ?g) (lsts ?g (viruses ?q)))
             ((1/2) ## sconst 0))"
    by (simp add: d(2)) (simp add: heap1_def patient5_def virus_gu_def doesClear_def
        random_random_def ResistantVirus_reproduce_def ResistantVirus_init_def
        getResistance_def unrounded_def)
  from update_doubles_population
    [of heap2 patient2 unrounded "1/512" "(1/2) ## (1/2) ## sconst 0" ?g ?q "1/1024"
        "(1/2) ## sconst 0"] a b n d(1)
  show ?thesis by auto
qed


section \<open>Two patients on one list\<close>

lemma in_store_addPrescription [simp]:
  "in_store (snd (addPrescription p d)) h = in_store p h"
  by (simp add: in_store_def addPrescription_def)

lemma update_step:
  assumes upd: "Patient_update ar p h s = (r, p', h', s')"
    and p: "in_store p h" and q: "in_store q h"
  shows "in_store p' h'" and "in_store q h'" and "nxt h \<le> nxt h'"
    and "\<forall>b<nxt h. lsts h' b = lsts h b \<and> objs h' b = objs h b"
proof -
  note f = update_body_frame [OF upd [unfolded Patient_update_def]]
  show "nxt h \<le> nxt h'" by (rule f(1))
  show fr: "\<forall>b<nxt h. lsts h' b = lsts h b \<and> objs h' b = objs h b" by (rule f(2))
  from q fr f(1) show "in_store q h'"
    by (auto simp: in_store_def list_all_iff)
  from f(3) show "in_store p' h'"
  proof
    assume "p' = p \<and> h' = h"
    with p show ?thesis by simp
  next
    assume a: "p' = p\<lparr>viruses := nxt h\<rparr> \<and> nxt h < nxt h'
           \<and> set (lsts h' (nxt h)) \<subseteq> set (lsts h (viruses p)) \<union> {nxt h..<nxt h'}"
    with p show ?thesis
      by (fastforce simp: in_store_def list_all_iff)
  qed
qed

lemma drive_frame:
  assumes "drive ar calls (p, q, h, s) = (p1, q1, h1, s1)"
    and "in_store p h" and "in_store q h"
  shows "in_store p1 h1 \<and> in_store q1 h1 \<and> nxt h \<le> nxt h1
       \<and> (\<forall>b<nxt h. lsts h1 b = lsts h b \<and> objs h1 b = objs h b)"
  using assms
proof (induction calls arbitrary: p q h s)
  case Nil
  then show ?case by simp
next
  case (Cons c calls)
  obtain first op where c: "c = (first, op)" by (cases c)
  show ?case
  proof (cases op)
    case (AddPrescription d)
    show ?thesis
    proof (cases first)
      case True
      with Cons.prems(1) c AddPrescription
      have "drive ar calls (snd (addPrescription p d), q, h, s) = (p1, q1, h1, s1)" by simp
      from Cons.IH [OF this] Cons.prems(2,3) show ?thesis by simp
    next
      case False
      with Cons.prems(1) c AddPrescription
      have "drive ar calls (p, snd (addPrescription q d), h, s) = (p1, q1, h1, s1)" by simp
      from Cons.IH [OF this] Cons.prems(2,3) show ?thesis by simp
    qed
  next
    case Update
    show ?thesis
    proof (cases first)
      case True
      obtain r p' h' s' where u: "Patient_update ar p h s = (r, p', h', s')"
        by (cases "Patient_update ar p h s")
      with Cons.prems(1) c Update True
      have d: "drive ar calls (p', q, h', s') = (p1, q1, h1, s1)" by simp
      note st = update_step [OF u Cons.prems(2,3)]
      from Cons.IH [OF d st(1,2)] st(3,4) show ?thesis by auto
    next
      case False
      obtain r q' h' s' where u: "Patient_update ar q h s = (r, q', h', s')"
        by (cases "Patient_update ar q h s")
      with Cons.prems(1) c Update False
      have d: "drive ar calls (p, q', h', s') = (p1, q1, h1, s1)" by simp
      note st = update_step [OF u Cons.prems(3,2)]
      from Cons.IH [OF d st(2,1)] st(3,4) show ?thesis by auto
    qed
  qed
qed

lemma resist_loop_cong:
  "\<forall>x\<in>set vs. objs h' x = objs h x \<Longrightarrow>
   resist_loop h' vs drugResist acc = resist_loop h vs drugResist acc"
  by (induction vs arbitrary: acc) (auto split: sum.splits)

lemma bystander_unchanged:
  assumes upd: "Patient_update ar p h s = (r, p', h', s')"
    and p: "in_store p h" and q: "in_store q h"
  shows "lsts h' (viruses q) = lsts h (viruses q)
       \<and> getTotalPop q h' = getTotalPop q h
       \<and> (\<forall>drugResist. getResistPop q h' drugResist = getResistPop q h drugResist)"
proof -
  note st = update_step [OF upd p q]
  from q st(4) have l: "lsts h' (viruses q) = lsts h (viruses q)"
    by (simp add: in_store_def)
  from q st(4) have "\<forall>x\<in>set (lsts h (viruses q)). objs h' x = objs h x"
    by (auto simp: in_store_def list_all_iff)
  from resist_loop_cong [OF this] l show ?thesis
    by (simp add: getTotalPop_def getResistPop_def)
qed

text \<open>
  Claim C9. Let a new patient be constructed on the list of another patient, the list
  and its viruses being allocated objects. After any sequence of \<^verbatim>\<open>update\<close> and
  \<^verbatim>\<open>addPrescription\<close> calls on the two patients, the list object given to the
  constructor holds the same viruses as at construction, and these viruses have the same
  attributes. And in the state so reached, an \<^verbatim>\<open>update\<close> of either patient changes
  nothing of what the other observes: its list, its total population and its resistant
  population for every list of drugs are the same after the call as before it.
\<close>

theorem patients_are_isolated:
  assumes "viruses src < nxt h" and "\<forall>x\<in>set (lsts h (viruses src)). x < nxt h"
    and "Patient_init (viruses src) m = Inr new"
    and "drive ar calls (src, new, h, s) = (src1, new1, h1, s1)"
  shows "lsts h1 (viruses src) = lsts h (viruses src)
       \<and> (\<forall>x\<in>set (lsts h (viruses src)). objs h1 x = objs h x)
       \<and> (case Patient_update ar src1 h1 s1 of (r, src2, h2, s2) \<Rightarrow>
            lsts h2 (viruses new1) = lsts h1 (viruses new1)
            \<and> getTotalPop new1 h2 = getTotalPop new1 h1
            \<and> (\<forall>drugResist. getResistPop new1 h2 drugResist = getResistPop new1 h1 drugResist))
       \<and> (case Patient_update ar new1 h1 s1 of (r, new2, h2, s2) \<Rightarrow>
            lsts h2 (viruses src1) = lsts h1 (viruses src1)
            \<and> getTotalPop src1 h2 = getTotalPop src1 h1
            \<and> (\<forall>drugResist. getResistPop src1 h2 drugResist = getResistPop src1 h1 drugResist))"
proof -
  from assms(1,2) have s: "in_store src h" by (simp add: in_store_def list_all_iff)
  from assms(3) have "viruses new = viruses src" by (auto simp: Patient_init_def)
  with s have n: "in_store new h" by (simp add: in_store_def)
  from drive_frame [OF assms(4) s n] have d: "in_store src1 h1" "in_store new1 h1"
    "\<forall>b<nxt h. lsts h1 b = lsts h b \<and> objs h1 b = objs h b" by simp_all
  from d(3) assms(1) have 1: "lsts h1 (viruses src) = lsts h (viruses src)" by simp
  from d(3) assms(2) have 2: "\<forall>x\<in>set (lsts h (viruses src)). objs h1 x = objs h x" by simp
  obtain r src2 h2 s2 where u1: "Patient_update ar src1 h1 s1 = (r, src2, h2, s2)"
    by (cases "Patient_update ar src1 h1 s1")
  obtain r' new2 h3 s3 where u2: "Patient_update ar new1 h1 s1 = (r', new2, h3, s3)"
    by (cases "Patient_update ar new1 h1 s1")
  from bystander_unchanged [OF u1 d(1) d(2)] bystander_unchanged [OF u2 d(2) d(1)] 1 2 u1 u2
  show ?thesis by simp
qed

text \<open>
  The theorem at \<open>patient1\<close> under guttagonol and \<open>patient3\<close>, built on its list, with a
  generator that always returns \<open>3/8\<close>: no virus is cleared, and a virus that may
  reproduce does. After the calls \<open>calls1\<close> each patient has its own list of two
  viruses, and the list given to the constructor still holds the one virus.
\<close>

theorem patients_are_isolated_witness:
  "viruses (patient1\<lparr>drugs := [''guttagonol'']\<rparr>) < nxt (heap1 virus_gu)
   \<and> Patient_init (viruses (patient1\<lparr>drugs := [''guttagonol'']\<rparr>)) 512 = Inr patient3
   \<and> (case drive unrounded calls1
              (patient1\<lparr>drugs := [''guttagonol'']\<rparr>, patient3, heap1 virus_gu, sconst (3/8))
       of (p, q, h, s) \<Rightarrow>
         lsts h 1 = [0] \<and> lsts h (viruses p) = [0, 5] \<and> lsts h (viruses q) = [0, 3])"
proof -
  let ?src = "patient1\<lparr>drugs := [''guttagonol'']\<rparr>"
  let ?h = "heap1 virus_gu"
  let ?st = "drive unrounded calls1 (?src, patient3, ?h, sconst (3/8))"
  have a: "viruses ?src < nxt ?h" "\<forall>x\<in>set (lsts ?h (viruses ?src)). x < nxt ?h"
    "Patient_init (viruses ?src) 512 = Inr patient3"
    by (simp_all add: patient1_def heap1_def Patient_init_def patient3_def)
  have d: "?st = (fst ?st, fst (snd ?st), fst (snd (snd ?st)), snd (snd (snd ?st)))"
    by simp
  have e: "(case ?st of (p, q, h, s) \<Rightarrow> (lsts h (viruses p), lsts h (viruses q)))
             = ([0, 5], [0, 3])"
    by (simp add: calls1_def patient1_def patient3_def heap1_def virus_gu_def
        Patient_update_def update_body_def doesClear_def random_random_def list_remove_def
        new_list_def new_obj_def list_append_def ResistantVirus_reproduce_def
        getResistance_def ResistantVirus_init_def getTotalPop_def Let_def
        addPrescription_def density_def unrounded_def)
  from patients_are_isolated [OF a d]
  have "lsts (fst (snd (snd ?st))) 1 = [0]"
    by (simp add: patient1_def heap1_def)
  with e a(1,3) show ?thesis by (simp add: split_beta)
qed

end
